theory Spec2Isabelle
  imports Main "HOL-Library.Word" "HOL-Library.List_Lexorder"
begin

unbundle bit_operations_syntax

section \<open>Values shared by the two storage backends\<close>

text \<open>
  A Go byte slice is a list of 8-bit words; byte slices are compared as bbolt compares
  keys (\<^verbatim>\<open>bytes.Compare\<close>): lexicographically on unsigned bytes, a proper prefix
  being smaller. That is the order of \<^theory_text>\<open>List_Lexorder\<close> on \<open>8 word list\<close>.
  A Go string is an immutable byte sequence, modelled as a HOL \<open>string\<close>;
  \<open>bytes_of\<close> is the conversion \<^verbatim>\<open>[]byte(s)\<close> and \<open>string_of\<close> is
  \<^verbatim>\<open>string(b)\<close>.
\<close>

type_synonym bytes = "8 word list"

definition bytes_of :: "string \<Rightarrow> bytes" where
  "bytes_of s = map (\<lambda>c. word_of_nat (of_char c)) s"

definition string_of :: "bytes \<Rightarrow> string" where
  "string_of b = map (\<lambda>w. char_of (unat w)) b"

subsection \<open>time.Time\<close>

text \<open>
  A \<^verbatim>\<open>time.Time\<close> is an instant together with a location. Go keeps the instant as
  seconds since January 1, year 1, 00:00:00 UTC plus nanoseconds within the second; the
  model keeps the same instant as one exact count of nanoseconds since that moment.
  The zero \<^verbatim>\<open>Time\<close> is instant 0 in UTC. The monotonic clock reading is not modelled
  (\<^verbatim>\<open>UTC()\<close> strips it).
\<close>

datatype location = UTC | FixedZone string int

record time =
  instant :: int
  loc :: location

definition IsZero :: "time \<Rightarrow> bool" where
  "IsZero t \<longleftrightarrow> instant t = 0"

definition time_UTC :: "time \<Rightarrow> time" where
  "time_UTC t = t\<lparr>loc := UTC\<rparr>"

text \<open>\<^verbatim>\<open>t.Before(u)\<close>, \<^verbatim>\<open>t.After(u)\<close> compare instants only.\<close>

definition Before :: "time \<Rightarrow> time \<Rightarrow> bool" where
  "Before t u \<longleftrightarrow> instant t < instant u"

definition After :: "time \<Rightarrow> time \<Rightarrow> bool" where
  "After t u \<longleftrightarrow> instant t > instant u"

text \<open>Seconds from January 1, year 1 to January 1, 1970 (Go's \<^verbatim>\<open>unixToInternal\<close>).\<close>

definition unixToInternal :: int where
  "unixToInternal = 62135596800"

text \<open>\<^verbatim>\<open>time.Unix(sec, nsec)\<close>, with the result taken in UTC.\<close>

definition time_Unix :: "int \<Rightarrow> int \<Rightarrow> time" where
  "time_Unix sec nsec = \<lparr>instant = (sec + unixToInternal) * 1000000000 + nsec, loc = UTC\<rparr>"

text \<open>
  \<^verbatim>\<open>t.UnixNano()\<close> is computed in \<^verbatim>\<open>int64\<close>: nanoseconds since the Unix epoch,
  wrapping around outside the 64-bit range. The result is kept as a 64-bit word, so that
  the conversion \<^verbatim>\<open>uint64(...)\<close> of \<open>toTimestamp\<close> is the identity on the bits.
\<close>

definition UnixNano :: "time \<Rightarrow> 64 word" where
  "UnixNano t = word_of_int (instant t - unixToInternal * 1000000000)"

subsection \<open>storage.Paste and the errors\<close>

record Paste =
  ID :: string
  Content :: string
  Syntax :: string
  CreatedAt :: time
  ExpiresAt :: time
  PasswordHash :: string
  Size :: int

definition HasExpiration :: "Paste \<Rightarrow> bool" where
  "HasExpiration p \<longleftrightarrow> \<not> IsZero (ExpiresAt p)"

text \<open>
  Errors are values. \<open>Wrap msg e\<close> is \<^verbatim>\<open>fmt.Errorf("msg: %w", e)\<close>;
  \<open>ErrPasteIsNil\<close> is \<^verbatim>\<open>errors.New("paste is nil")\<close>; \<open>ErrCanceled\<close> and
  \<open>ErrDeadlineExceeded\<close> are the two values of \<^verbatim>\<open>ctx.Err()\<close>; \<open>ErrKeyRequired\<close>
  and \<open>ErrKeyTooLarge\<close> are bbolt's; \<open>ErrYearRange\<close> is the failure of
  \<^verbatim>\<open>Time.MarshalJSON\<close>; \<open>PanicSliceBounds\<close> stands for the run-time panic of a slice
  expression out of range and \<open>PanicNilPointer\<close> for that of a nil pointer dereference.
\<close>

datatype error =
    ErrPasteIsNil
  | ErrNotFound
  | ErrCanceled
  | ErrDeadlineExceeded
  | ErrKeyRequired
  | ErrKeyTooLarge
  | ErrYearRange
  | PanicSliceBounds
  | PanicNilPointer
  | Wrap string error

text \<open>
  A context is modelled by what \<^verbatim>\<open>ctx.Err()\<close> returns when the operation looks at it:
  \<open>None\<close> while the context is live, the error once it is done.
\<close>

type_synonym go_context = "error option"

section \<open>The embedded backend (boltstore)\<close>

subsection \<open>The composite index key\<close>

definition toTimestamp :: "time \<Rightarrow> 64 word" where
  "toTimestamp t = (if IsZero t then 0 else UnixNano (time_UTC t))"

text \<open>\<^verbatim>\<open>binary.BigEndian.PutUint64\<close> and \<^verbatim>\<open>binary.BigEndian.Uint64\<close>.\<close>

definition PutUint64 :: "64 word \<Rightarrow> bytes" where
  "PutUint64 v = [ucast (drop_bit 56 v), ucast (drop_bit 48 v), ucast (drop_bit 40 v),
     ucast (drop_bit 32 v), ucast (drop_bit 24 v), ucast (drop_bit 16 v),
     ucast (drop_bit 8 v), ucast v]"

definition Uint64 :: "bytes \<Rightarrow> 64 word" where
  "Uint64 b = ucast (b ! 7) OR push_bit 8 (ucast (b ! 6)) OR push_bit 16 (ucast (b ! 5))
     OR push_bit 24 (ucast (b ! 4)) OR push_bit 32 (ucast (b ! 3)) OR push_bit 40 (ucast (b ! 2))
     OR push_bit 48 (ucast (b ! 1)) OR push_bit 56 (ucast (b ! 0))"

definition expireKey :: "time \<Rightarrow> string \<Rightarrow> bytes" where
  "expireKey t pid = PutUint64 (toTimestamp t) @ bytes_of pid"

subsection \<open>JSON documents\<close>

text \<open>
  \<^verbatim>\<open>encoding/json\<close> writes a Go string as JSON text: it walks the bytes with
  \<^verbatim>\<open>utf8.DecodeRuneInString\<close>, copies every well-formed UTF-8 sequence (escaped or not,
  the decoder undoes the escapes) and replaces every byte that does not begin one by the
  replacement character U+FFFD, the three bytes EF BF BD. \<open>rune_len c cs\<close> is the
  length of the well-formed sequence that begins with the byte \<open>c\<close> followed by \<open>cs\<close>,
  by the table of Go's \<^verbatim>\<open>unicode/utf8\<close> (no overlong forms, no surrogates, nothing
  above U+10FFFF); \<open>None\<close> when there is none.
\<close>

definition byte_in :: "nat \<Rightarrow> nat \<Rightarrow> char \<Rightarrow> bool" where
  "byte_in lo hi c \<longleftrightarrow> lo \<le> of_char c \<and> of_char c \<le> hi"

definition rune2 :: "string \<Rightarrow> nat option" where
  "rune2 cs = (case cs of c1 # r \<Rightarrow> if byte_in 128 191 c1 then Some 2 else None | [] \<Rightarrow> None)"

definition rune3 :: "nat \<Rightarrow> nat \<Rightarrow> string \<Rightarrow> nat option" where
  "rune3 lo hi cs =
     (case cs of
        c1 # c2 # r \<Rightarrow> if byte_in lo hi c1 \<and> byte_in 128 191 c2 then Some 3 else None
      | _ \<Rightarrow> None)"

definition rune4 :: "nat \<Rightarrow> nat \<Rightarrow> string \<Rightarrow> nat option" where
  "rune4 lo hi cs =
     (case cs of
        c1 # c2 # c3 # r \<Rightarrow>
          if byte_in lo hi c1 \<and> byte_in 128 191 c2 \<and> byte_in 128 191 c3 then Some 4 else None
      | _ \<Rightarrow> None)"

definition rune_len :: "char \<Rightarrow> string \<Rightarrow> nat option" where
  "rune_len c cs =
     (let b = (of_char c :: nat)
      in if b < 128 then Some 1
         else if 194 \<le> b \<and> b \<le> 223 then rune2 cs
         else if b = 224 then rune3 160 191 cs
         else if b = 237 then rune3 128 159 cs
         else if 225 \<le> b \<and> b \<le> 239 then rune3 128 191 cs
         else if b = 240 then rune4 144 191 cs
         else if 241 \<le> b \<and> b \<le> 243 then rune4 128 191 cs
         else if b = 244 then rune4 128 143 cs
         else None)"

text \<open>
  \<open>json_text k s\<close> is the string that comes back from the JSON text of \<open>s\<close>, where
  the first \<open>k\<close> bytes of \<open>s\<close> are the rest of a sequence already accepted.
  \<open>utf8_from\<close> is \<^verbatim>\<open>utf8.ValidString\<close> in the same way.
\<close>

fun json_text :: "nat \<Rightarrow> string \<Rightarrow> string" where
  "json_text k [] = []"
| "json_text (Suc k) (c # cs) = c # json_text k cs"
| "json_text 0 (c # cs) =
     (case rune_len c cs of
        None \<Rightarrow> [CHR 0xEF, CHR 0xBF, CHR 0xBD] @ json_text 0 cs
      | Some n \<Rightarrow> c # json_text (n - 1) cs)"

definition json_string :: "string \<Rightarrow> string" where
  "json_string s = json_text 0 s"

fun utf8_from :: "nat \<Rightarrow> string \<Rightarrow> bool" where
  "utf8_from k [] \<longleftrightarrow> True"
| "utf8_from (Suc k) (c # cs) \<longleftrightarrow> utf8_from k cs"
| "utf8_from 0 (c # cs) \<longleftrightarrow>
     (case rune_len c cs of None \<Rightarrow> False | Some n \<Rightarrow> utf8_from (n - 1) cs)"

definition ValidString :: "string \<Rightarrow> bool" where
  "ValidString s \<longleftrightarrow> utf8_from 0 s"

text \<open>
  The primary bucket holds \<^verbatim>\<open>json.Marshal(paste)\<close>. The document is modelled by the
  field values that \<^verbatim>\<open>json.Unmarshal\<close> reads back from it: the four strings as the
  JSON text carries them, the number, and the two times, which \<open>Save\<close> has put in UTC
  and which RFC 3339 text with nanoseconds represents exactly. Marshalling fails exactly
  when a time's year lies outside 0..9999; the year is read in the time's own location.
\<close>

datatype json_doc = JSON Paste

definition zone_offset :: "location \<Rightarrow> int" where
  "zone_offset l = (case l of UTC \<Rightarrow> 0 | FixedZone name secs \<Rightarrow> secs)"

text \<open>
  Year 0 begins 366 days before instant 0 and year 10000 begins 3652059 days after it.
\<close>

definition year_in_range :: "time \<Rightarrow> bool" where
  "year_in_range t \<longleftrightarrow>
     (let local = instant t + zone_offset (loc t) * 1000000000
      in - 31622400 * 1000000000 \<le> local \<and> local < 315537897600 * 1000000000)"

definition json_strings :: "Paste \<Rightarrow> Paste" where
  "json_strings p = p\<lparr>ID := json_string (ID p), Content := json_string (Content p),
     Syntax := json_string (Syntax p), PasswordHash := json_string (PasswordHash p)\<rparr>"

definition json_Marshal :: "Paste \<Rightarrow> error + json_doc" where
  "json_Marshal p =
     (if year_in_range (CreatedAt p) \<and> year_in_range (ExpiresAt p)
      then Inr (JSON (json_strings p))
      else Inl ErrYearRange)"

fun json_Unmarshal :: "json_doc \<Rightarrow> error + Paste" where
  "json_Unmarshal (JSON p) = Inr p"

subsection \<open>Buckets\<close>

text \<open>
  A bbolt bucket is an ordered map from byte keys to values. It is modelled as an
  association list in ascending key order, which is the order a cursor visits.
  \<open>Put\<close> rejects an empty key and a key longer than \<open>MaxKeySize\<close>; the limit on the
  size of a value is not modelled. \<open>Delete\<close> of an absent key succeeds and changes
  nothing. Both return an error in Go only for a closed or read-only transaction or a
  nested bucket, none of which arises inside \<^verbatim>\<open>db.Update\<close> on these two buckets; the
  result type keeps the error branch of the source all the same.
\<close>

type_synonym 'v bucket = "(bytes \<times> 'v) list"

definition MaxKeySize :: nat where
  "MaxKeySize = 32768"

definition bucket_Get :: "bytes \<Rightarrow> 'v bucket \<Rightarrow> 'v option" where
  "bucket_Get k b = map_of b k"

fun bucket_insert :: "bytes \<Rightarrow> 'v \<Rightarrow> 'v bucket \<Rightarrow> 'v bucket" where
  "bucket_insert k v [] = [(k, v)]"
| "bucket_insert k v ((k', v') # b) =
     (if k < k' then (k, v) # (k', v') # b
      else if k = k' then (k, v) # b
      else (k', v') # bucket_insert k v b)"

definition bucket_Put :: "bytes \<Rightarrow> 'v \<Rightarrow> 'v bucket \<Rightarrow> error + 'v bucket" where
  "bucket_Put k v b =
     (if length k = 0 then Inl ErrKeyRequired
      else if length k > MaxKeySize then Inl ErrKeyTooLarge
      else Inr (bucket_insert k v b))"

definition bucket_Delete :: "bytes \<Rightarrow> 'v bucket \<Rightarrow> error + 'v bucket" where
  "bucket_Delete k b = Inr (filter (\<lambda>e. fst e \<noteq> k) b)"

text \<open>
  The database file holds the two buckets \<^verbatim>\<open>pastes\<close> and \<^verbatim>\<open>expires\<close>. \<open>Open\<close>
  creates both and nothing removes them, so a store always has both and the
  \<^verbatim>\<open>buckets not initialized\<close> returns of the source are not reachable.
\<close>

record db =
  pastes :: "json_doc bucket"
  expires :: "bytes bucket"

definition bolt_Open :: db where
  "bolt_Open = \<lparr>pastes = [], expires = []\<rparr>"

text \<open>
  \<^verbatim>\<open>db.Update(fn)\<close> runs \<open>fn\<close> in a read-write transaction: it commits when \<open>fn\<close>
  returns nil and rolls back, leaving the database as it was, when \<open>fn\<close> returns an
  error. Failures of the commit itself (I/O) are not modelled.
\<close>

definition db_Update :: "(db \<Rightarrow> error + db) \<Rightarrow> db \<Rightarrow> error option \<times> db" where
  "db_Update fn s = (case fn s of Inl e \<Rightarrow> (Some e, s) | Inr s' \<Rightarrow> (None, s'))"

subsection \<open>Save, Get, Delete\<close>

definition normalizeUTC :: "Paste \<Rightarrow> Paste" where
  "normalizeUTC p = p\<lparr>CreatedAt := time_UTC (CreatedAt p), ExpiresAt := time_UTC (ExpiresAt p)\<rparr>"

text \<open>The transaction body of \<open>Save\<close>, for the normalised paste and its document.\<close>

definition Save_tx :: "Paste \<Rightarrow> json_doc \<Rightarrow> db \<Rightarrow> error + db" where
  "Save_tx paste data s =
     (let pBucket = pastes s; eBucket = expires s;
          r1 = (case bucket_Get (bytes_of (ID paste)) pBucket of
                  None \<Rightarrow> Inr eBucket
                | Some existing \<Rightarrow>
                    (case json_Unmarshal existing of
                       Inl e \<Rightarrow> Inr eBucket
                     | Inr prev \<Rightarrow>
                         if HasExpiration prev
                         then (case bucket_Delete (expireKey (ExpiresAt prev) (ID prev)) eBucket of
                                 Inl e \<Rightarrow> Inl (Wrap ''remove previous expiry index'' e)
                               | Inr eb \<Rightarrow> Inr eb)
                         else Inr eBucket))
      in case r1 of
           Inl e \<Rightarrow> Inl e
         | Inr eb1 \<Rightarrow>
             (case bucket_Put (bytes_of (ID paste)) data pBucket of
                Inl e \<Rightarrow> Inl (Wrap ''save paste'' e)
              | Inr pb \<Rightarrow>
                  if HasExpiration paste
                  then (case bucket_Put (expireKey (ExpiresAt paste) (ID paste))
                               (bytes_of (ID paste)) eb1 of
                          Inl e \<Rightarrow> Inl (Wrap ''index expiry'' e)
                        | Inr eb2 \<Rightarrow> Inr \<lparr>pastes = pb, expires = eb2\<rparr>)
                  else Inr \<lparr>pastes = pb, expires = eb1\<rparr>))"

text \<open>
  \<open>Save\<close> takes a pointer: \<open>None\<close> is the nil pointer. The result is the returned
  error (\<open>None\<close> for nil), the caller's struct as \<open>Save\<close> leaves it, and the database.
\<close>

definition bolt_Save :: "go_context \<Rightarrow> Paste option \<Rightarrow> db \<Rightarrow> error option \<times> Paste option \<times> db" where
  "bolt_Save ctx paste s =
     (case paste of
        None \<Rightarrow> (Some ErrPasteIsNil, None, s)
      | Some p \<Rightarrow>
          (case ctx of
             Some e \<Rightarrow> (Some e, Some p, s)
           | None \<Rightarrow>
               (let p' = normalizeUTC p
                in case json_Marshal p' of
                     Inl e \<Rightarrow> (Some (Wrap ''marshal paste'' e), Some p', s)
                   | Inr data \<Rightarrow>
                       (let (err, s') = db_Update (Save_tx p' data) s
                        in (err, Some p', s')))))"

definition bolt_Get :: "go_context \<Rightarrow> string \<Rightarrow> db \<Rightarrow> error + Paste" where
  "bolt_Get ctx pid s =
     (case ctx of
        Some e \<Rightarrow> Inl e
      | None \<Rightarrow>
          (case bucket_Get (bytes_of pid) (pastes s) of
             None \<Rightarrow> Inl ErrNotFound
           | Some raw \<Rightarrow>
               (case json_Unmarshal raw of
                  Inl e \<Rightarrow> Inl (Wrap ''unmarshal paste'' e)
                | Inr paste \<Rightarrow> Inr paste)))"

definition Delete_tx :: "string \<Rightarrow> db \<Rightarrow> error + db" where
  "Delete_tx pid s =
     (let pBucket = pastes s; eBucket = expires s
      in case bucket_Get (bytes_of pid) pBucket of
           None \<Rightarrow> Inl ErrNotFound
         | Some raw \<Rightarrow>
             (let r1 = (case json_Unmarshal raw of
                          Inl e \<Rightarrow> Inr eBucket
                        | Inr paste \<Rightarrow>
                            if HasExpiration paste
                            then (case bucket_Delete (expireKey (ExpiresAt paste) (ID paste)) eBucket of
                                    Inl e \<Rightarrow> Inl (Wrap ''delete expiry index'' e)
                                  | Inr eb \<Rightarrow> Inr eb)
                            else Inr eBucket)
              in case r1 of
                   Inl e \<Rightarrow> Inl e
                 | Inr eb1 \<Rightarrow>
                     (case bucket_Delete (bytes_of pid) pBucket of
                        Inl e \<Rightarrow> Inl (Wrap ''delete paste'' e)
                      | Inr pb \<Rightarrow> Inr \<lparr>pastes = pb, expires = eb1\<rparr>)))"

definition bolt_Delete :: "go_context \<Rightarrow> string \<Rightarrow> db \<Rightarrow> error option \<times> db" where
  "bolt_Delete ctx pid s =
     (case ctx of
        Some e \<Rightarrow> (Some e, s)
      | None \<Rightarrow> db_Update (Delete_tx pid) s)"

subsection \<open>DeleteExpired\<close>

text \<open>
  The cursor loop. The second argument is what the cursor has still to visit: the
  entries of the index in key order from the current position on. \<open>cursor.Delete\<close>
  removes the current entry and \<open>cursor.Next\<close> moves to the entry that followed it.
  \<^verbatim>\<open>key[:8]\<close> panics on a key shorter than eight bytes. The counter \<open>removed\<close> lives
  outside the transaction, so it keeps its value when the transaction fails.
\<close>

fun sweep :: "64 word \<Rightarrow> bytes bucket \<Rightarrow> json_doc bucket \<Rightarrow> bytes bucket \<Rightarrow> int
    \<Rightarrow> error option \<times> json_doc bucket \<times> bytes bucket \<times> int" where
  "sweep cutoff [] pBucket eBucket removed = (None, pBucket, eBucket, removed)"
| "sweep cutoff ((key, val) # rest) pBucket eBucket removed =
     (if length key < 8 then (Some PanicSliceBounds, pBucket, eBucket, removed)
      else if Uint64 (take 8 key) > cutoff then (None, pBucket, eBucket, removed)
      else
        (let pid = string_of val
         in case bucket_Delete (bytes_of pid) pBucket of
              Inl e \<Rightarrow> (Some (Wrap ''delete expired paste'' e), pBucket, eBucket, removed)
            | Inr pb \<Rightarrow>
                (case bucket_Delete key eBucket of
                   Inl e \<Rightarrow> (Some (Wrap ''delete expiry index'' e), pb, eBucket, removed)
                 | Inr eb \<Rightarrow> sweep cutoff rest pb eb (removed + 1))))"

text \<open>
  The result is the count, the error and the database. The panic of the loop is carried
  as the value \<open>PanicSliceBounds\<close> with the database as it was (\<^verbatim>\<open>db.Update\<close> rolls
  back while the panic unwinds); a caller that goes on after the call, the janitor, sees
  it as a panic (\<open>bolt_store\<close> below).
\<close>

definition bolt_DeleteExpired :: "go_context \<Rightarrow> time \<Rightarrow> db \<Rightarrow> int \<times> error option \<times> db" where
  "bolt_DeleteExpired ctx before s =
     (case ctx of
        Some e \<Rightarrow> (0, Some e, s)
      | None \<Rightarrow>
          (let before' = time_UTC before;
               cutoff = toTimestamp before';
               (err, pb, eb, removed) = sweep cutoff (expires s) (pastes s) (expires s) 0
           in case err of
                Some e \<Rightarrow> (removed, Some e, s)
              | None \<Rightarrow> (removed, None, \<lparr>pastes = pb, expires = eb\<rparr>)))"

subsection \<open>Sequences of operations and the state of the two buckets\<close>





text \<open>A bucket is well formed when its keys are strictly ascending.\<close>

definition bucket_ok :: "'v bucket \<Rightarrow> bool" where
  "bucket_ok b \<longleftrightarrow> sorted_wrt (<) (map fst b)"







text \<open>
  The instants that the 64-bit timestamp represents in order: from the Unix epoch up to
  the last nanosecond a signed 64-bit count since the epoch can hold
  (2262-04-11T23:47:16.854775807Z).
\<close>

definition timestamp_range :: "time \<Rightarrow> bool" where
  "timestamp_range t \<longleftrightarrow>
     unixToInternal * 1000000000 \<le> instant t \<and>
     instant t < unixToInternal * 1000000000 + 2 ^ 63"




text \<open>Big-endian digits of a number, most significant first (used in the proofs).\<close>

fun be_digits :: "nat \<Rightarrow> nat \<Rightarrow> bytes" where
  "be_digits 0 n = []"
| "be_digits (Suc k) n = word_of_nat (n div 256 ^ k) # be_digits k (n mod 256 ^ k)"

section \<open>The relational backend (sqlitestore)\<close>

text \<open>
  The table \<^verbatim>\<open>pastes\<close> is a list of rows, one per id (\<^verbatim>\<open>id TEXT PRIMARY KEY\<close>);
  a nullable column is an option. The engine is modelled by the meaning of the three
  statements the store executes: the upsert replaces every column of the row with the
  same id or adds a row, the two deletes remove the rows their \<^verbatim>\<open>WHERE\<close> clause
  selects and report how many, and \<^verbatim>\<open>expires_at <= ?\<close> compares instants (how the
  driver, which is not part of the repository, stores a time is not modelled). A statement
  run under a context that is already done fails with the context's error and changes
  nothing. Other failures of the engine, among them a failure of \<^verbatim>\<open>row.Scan\<close> to
  convert a stored column, are not modelled: of \<open>Get\<close> only the outcome for an absent
  id is used below.
\<close>

record sql_row =
  col_id :: string
  col_content :: bytes
  col_syntax :: string
  col_created_at :: time
  col_expires_at :: "time option"
  col_password_hash :: "string option"
  col_size :: int

type_synonym table = "sql_row list"

definition nullableTime :: "time \<Rightarrow> time option" where
  "nullableTime t = (if IsZero t then None else Some (time_UTC t))"

definition nullString :: "string \<Rightarrow> string option" where
  "nullString s = (if s = [] then None else Some s)"

definition row_of :: "Paste \<Rightarrow> sql_row" where
  "row_of p = \<lparr>col_id = ID p, col_content = bytes_of (Content p), col_syntax = Syntax p,
     col_created_at = CreatedAt p, col_expires_at = nullableTime (ExpiresAt p),
     col_password_hash = nullString (PasswordHash p), col_size = Size p\<rparr>"

definition sql_upsert :: "sql_row \<Rightarrow> table \<Rightarrow> table" where
  "sql_upsert r t =
     (case find (\<lambda>x. col_id x = col_id r) t of
        None \<Rightarrow> t @ [r]
      | Some old \<Rightarrow> map (\<lambda>x. if col_id x = col_id r then r else x) t)"

definition sqlite_Save :: "go_context \<Rightarrow> Paste option \<Rightarrow> table \<Rightarrow> error option \<times> Paste option \<times> table" where
  "sqlite_Save ctx paste t =
     (case paste of
        None \<Rightarrow> (Some ErrPasteIsNil, None, t)
      | Some p \<Rightarrow>
          (let p' = normalizeUTC p
           in case ctx of
                Some e \<Rightarrow> (Some (Wrap ''save paste'' e), Some p', t)
              | None \<Rightarrow> (None, Some p', sql_upsert (row_of p') t)))"

definition zero_time :: time where
  "zero_time = \<lparr>instant = 0, loc = UTC\<rparr>"

definition sqlite_Get :: "go_context \<Rightarrow> string \<Rightarrow> table \<Rightarrow> error + Paste" where
  "sqlite_Get ctx pid t =
     (case ctx of
        Some e \<Rightarrow> Inl (Wrap ''query paste'' e)
      | None \<Rightarrow>
          (case find (\<lambda>x. col_id x = pid) t of
             None \<Rightarrow> Inl ErrNotFound
           | Some r \<Rightarrow>
               Inr \<lparr>ID = col_id r, Content = string_of (col_content r), Syntax = col_syntax r,
                    CreatedAt = time_UTC (col_created_at r),
                    ExpiresAt = (case col_expires_at r of None \<Rightarrow> zero_time | Some e \<Rightarrow> time_UTC e),
                    PasswordHash = (case col_password_hash r of None \<Rightarrow> [] | Some h \<Rightarrow> h),
                    Size = col_size r\<rparr>))"

definition sqlite_Delete :: "go_context \<Rightarrow> string \<Rightarrow> table \<Rightarrow> error option \<times> table" where
  "sqlite_Delete ctx pid t =
     (case ctx of
        Some e \<Rightarrow> (Some (Wrap ''delete paste'' e), t)
      | None \<Rightarrow>
          (let t' = filter (\<lambda>x. col_id x \<noteq> pid) t;
               rows = int (length t) - int (length t')
           in if rows = 0 then (Some ErrNotFound, t') else (None, t')))"

definition row_expired :: "time \<Rightarrow> sql_row \<Rightarrow> bool" where
  "row_expired before x =
     (case col_expires_at x of None \<Rightarrow> False | Some e \<Rightarrow> \<not> After e before)"

definition sqlite_DeleteExpired :: "go_context \<Rightarrow> time \<Rightarrow> table \<Rightarrow> int \<times> error option \<times> table" where
  "sqlite_DeleteExpired ctx before t =
     (case ctx of
        Some e \<Rightarrow> (0, Some (Wrap ''delete expired'' e), t)
      | None \<Rightarrow>
          (let t' = filter (\<lambda>x. \<not> row_expired (time_UTC before) x) t
           in (int (length t) - int (length t'), None, t')))"

section \<open>The janitor\<close>

text \<open>
  A \<^verbatim>\<open>time.Duration\<close> is a count of nanoseconds. \<open>WithTimeout\<close> gives the state of the
  derived context when the callee looks at it on entry: done when the parent is done,
  and done with \<open>ErrDeadlineExceeded\<close> when the timeout is not positive.
\<close>

definition Second :: int where
  "Second = 1000000000"

definition Minute :: int where
  "Minute = 60 * Second"

definition WithTimeout :: "go_context \<Rightarrow> int \<Rightarrow> go_context" where
  "WithTimeout parent d =
     (case parent of
        Some e \<Rightarrow> Some e
      | None \<Rightarrow> if d \<le> 0 then Some ErrDeadlineExceeded else None)"

text \<open>
  A call either returns or panics; a panic is not an error value and unwinds through the
  caller unless it is recovered. A logger is the list of records it has written;
  \<open>None\<close> is the nil \<^verbatim>\<open>*slog.Logger\<close>, and a method called on it dereferences the
  nil pointer. The store is any implementation of \<open>DeleteExpired\<close>, acting on a state
  of its own.
\<close>

datatype 'a outcome = Returns 'a | Panics error

datatype log_record = LogError string error | LogInfo string int

type_synonym logger = "log_record list option"

definition logger_Error :: "logger \<Rightarrow> string \<Rightarrow> error \<Rightarrow> logger outcome" where
  "logger_Error lg msg e =
     (case lg of
        None \<Rightarrow> Panics PanicNilPointer
      | Some out \<Rightarrow> Returns (Some (out @ [LogError msg e])))"

definition logger_Info :: "logger \<Rightarrow> string \<Rightarrow> int \<Rightarrow> logger outcome" where
  "logger_Info lg msg n =
     (case lg of
        None \<Rightarrow> Panics PanicNilPointer
      | Some out \<Rightarrow> Returns (Some (out @ [LogInfo msg n])))"

definition cleanOnce_timeout :: int where
  "cleanOnce_timeout = 5 * Second"

definition cleanOnce ::
    "(go_context \<Rightarrow> time \<Rightarrow> 's \<Rightarrow> (int \<times> error option \<times> 's) outcome) \<Rightarrow> go_context \<Rightarrow> time
      \<Rightarrow> 's \<Rightarrow> logger \<Rightarrow> ('s \<times> logger) outcome" where
  "cleanOnce store_DeleteExpired ctx now st lg =
     (let c = WithTimeout ctx cleanOnce_timeout
      in case store_DeleteExpired c now st of
           Panics x \<Rightarrow> Panics x
         | Returns (removed, err, st') \<Rightarrow>
             (case err of
                Some e \<Rightarrow>
                  (if lg \<noteq> None
                   then (case logger_Error lg ''janitor error'' e of
                           Panics x \<Rightarrow> Panics x
                         | Returns lg' \<Rightarrow> Returns (st', lg'))
                   else Returns (st', lg))
              | None \<Rightarrow>
                  (if removed > 0 \<and> lg \<noteq> None
                   then (case logger_Info lg ''janitor removed expired pastes'' removed of
                           Panics x \<Rightarrow> Panics x
                         | Returns lg' \<Rightarrow> Returns (st', lg'))
                   else Returns (st', lg))))"

text \<open>
  \<open>StartJanitor\<close> replaces a non-positive interval by one minute and starts the loop.
  The loop is run over the events its \<^verbatim>\<open>select\<close> receives: a tick, with the state of
  the context and the clock reading at that moment, or the cancellation, which ends it.
  A panic in a tick ends the goroutine.
\<close>

definition ticker_interval :: "int \<Rightarrow> int" where
  "ticker_interval interval = (if interval \<le> 0 then Minute else interval)"

datatype event = Tick go_context time | CtxDone

fun janitor_loop ::
    "(go_context \<Rightarrow> time \<Rightarrow> 's \<Rightarrow> (int \<times> error option \<times> 's) outcome) \<Rightarrow> event list
      \<Rightarrow> 's \<Rightarrow> logger \<Rightarrow> ('s \<times> logger) outcome" where
  "janitor_loop store_DeleteExpired [] st lg = Returns (st, lg)"
| "janitor_loop store_DeleteExpired (CtxDone # evs) st lg = Returns (st, lg)"
| "janitor_loop store_DeleteExpired (Tick ctx now # evs) st lg =
     (case cleanOnce store_DeleteExpired ctx now st lg of
        Panics x \<Rightarrow> Panics x
      | Returns (st', lg') \<Rightarrow> janitor_loop store_DeleteExpired evs st' lg')"

text \<open>The ticks a run of the loop serves: those before the cancellation.\<close>

fun served :: "event list \<Rightarrow> (go_context \<times> time) list" where
  "served [] = []"
| "served (CtxDone # evs) = []"
| "served (Tick ctx now # evs) = (ctx, now) # served evs"

text \<open>
  The two stores of the repository as the janitor calls them: the embedded
  \<open>DeleteExpired\<close> panics where the cursor loop does, and otherwise both return.
\<close>

definition bolt_store :: "go_context \<Rightarrow> time \<Rightarrow> db \<Rightarrow> (int \<times> error option \<times> db) outcome" where
  "bolt_store c now s =
     (let (removed, err, s') = bolt_DeleteExpired c now s
      in if err = Some PanicSliceBounds then Panics PanicSliceBounds
         else Returns (removed, err, s'))"

definition sqlite_store :: "go_context \<Rightarrow> time \<Rightarrow> table \<Rightarrow> (int \<times> error option \<times> table) outcome" where
  "sqlite_store c now t = Returns (sqlite_DeleteExpired c now t)"

section \<open>Sample values\<close>

text \<open>
  Values for the concrete runs below: a clock reading (2023-11-14T22:13:20Z), the same
  instant read in a zone one hour east of UTC, and a paste with a given id and expiry.
\<close>

definition sample_now :: time where
  "sample_now = time_Unix 1700000000 0"

definition sample_local :: time where
  "sample_local = sample_now\<lparr>loc := FixedZone ''CET'' 3600\<rparr>"

definition time_Add :: "time \<Rightarrow> int \<Rightarrow> time" where
  "time_Add t d = t\<lparr>instant := instant t + d\<rparr>"

definition sample_paste :: "string \<Rightarrow> time \<Rightarrow> Paste" where
  "sample_paste pid exp = \<lparr>ID = pid, Content = ''ok'', Syntax = ''plaintext'',
     CreatedAt = sample_local, ExpiresAt = exp, PasswordHash = [], Size = 2\<rparr>"

text \<open>
  The clock reading \<open>h\<close> hours later, and the two saves of the scenarios: of a paste
  that expires in one hour, and of a paste that never expires.
\<close>

definition Hour :: int where
  "Hour = 60 * Minute"

definition sample_later :: "int \<Rightarrow> time" where
  "sample_later h = time_Add sample_now (h * Hour)"



section \<open>Properties\<close>

subsection \<open>Bytes and strings\<close>

lemma string_of_bytes_of [simp]: "string_of (bytes_of s) = s"
proof -
  have "char_of (unat (word_of_nat (of_char c) :: 8 word)) = c" for c
    by (simp add: unat_of_nat char_of_take_bit_eq)
  then show ?thesis by (simp add: string_of_def bytes_of_def map_idI)
qed

lemma bytes_of_string_of [simp]: "bytes_of (string_of b) = b"
proof -
  have "(word_of_nat (of_char (char_of (unat w))) :: 8 word) = w" for w :: "8 word"
  proof -
    have "unat w < 2 ^ LENGTH(8)" by (rule unsigned_less)
    then have "unat w mod 256 = unat w" by simp
    then show ?thesis by simp
  qed
  then show ?thesis by (simp add: string_of_def bytes_of_def map_idI)
qed

lemma bytes_of_eq_iff [simp]: "bytes_of a = bytes_of b \<longleftrightarrow> a = b"
  by (metis string_of_bytes_of)

lemma length_bytes_of [simp]: "length (bytes_of s) = length s"
  by (simp add: bytes_of_def)

subsection \<open>The big-endian encoding\<close>

lemma byte_piece:
  "bit (push_bit k (ucast (ucast (drop_bit k v :: 64 word) :: 8 word)) :: 64 word) n
     \<longleftrightarrow> k \<le> n \<and> n < k + 8 \<and> n < 64 \<and> bit v n"
  by (auto simp: bit_simps)

lemma byte_piece0:
  "bit (ucast (ucast (v :: 64 word) :: 8 word) :: 64 word) n \<longleftrightarrow> n < 8 \<and> bit v n"
  by (auto simp: bit_simps)

lemma Uint64_PutUint64 [simp]: "Uint64 (PutUint64 v) = v"
proof (rule bit_word_eqI)
  fix n assume n: "n < LENGTH(64)"
  have "bit (Uint64 (PutUint64 v)) n \<longleftrightarrow> n < 64 \<and> bit v n"
    unfolding Uint64_def PutUint64_def
    by (simp add: bit_or_iff byte_piece byte_piece0) arith
  with n show "bit (Uint64 (PutUint64 v)) n = bit v n" by simp
qed

lemma length_PutUint64 [simp]: "length (PutUint64 v) = 8"
  by (simp add: PutUint64_def)

lemma PutUint64_eq_iff [simp]: "PutUint64 v = PutUint64 w \<longleftrightarrow> v = w"
  by (metis Uint64_PutUint64)

lemma length_be_digits [simp]: "length (be_digits k n) = k"
  by (induction k arbitrary: n) simp_all

lemma byte_of_nat_less:
  assumes "a < b" "b < 256"
  shows "(word_of_nat a :: 8 word) < word_of_nat b"
  using assms by (simp add: word_less_nat_alt unat_of_nat take_bit_nat_eq_self)

lemma be_digits_mono:
  "a < b \<Longrightarrow> b < 256 ^ k \<Longrightarrow> be_digits k a @ xs < be_digits k b @ ys"
proof (induction k arbitrary: a b)
  case 0
  then show ?case by simp
next
  case (Suc k)
  have qb: "b div 256 ^ k < 256"
    using Suc.prems(2) by (simp add: less_mult_imp_div_less mult.commute)
  have le: "a div 256 ^ k \<le> b div 256 ^ k"
    using Suc.prems(1) by (simp add: div_le_mono)
  show ?case
  proof (cases "a div 256 ^ k < b div 256 ^ k")
    case True
    then show ?thesis using qb by (simp add: byte_of_nat_less)
  next
    case False
    with le have eq: "a div 256 ^ k = b div 256 ^ k" by simp
    have "a mod 256 ^ k < b mod 256 ^ k"
      using Suc.prems(1) eq by (metis div_mult_mod_eq nat_add_left_cancel_less)
    moreover have "b mod 256 ^ k < 256 ^ k" by simp
    ultimately have "be_digits k (a mod 256 ^ k) @ xs < be_digits k (b mod 256 ^ k) @ ys"
      by (rule Suc.IH)
    then show ?thesis using eq by simp
  qed
qed

lemma byte_drop:
  "(ucast (drop_bit k (v :: 64 word)) :: 8 word) = word_of_nat (unat v div 2 ^ k)"
proof -
  have h: "unat v div 2 ^ k = unat (drop_bit k v)"
    by (simp only: unat_drop_bit_eq) (simp add: drop_bit_eq_div)
  show ?thesis unfolding h by (rule of_nat_unat [symmetric])
qed

lemma word_of_nat_mod256: "(word_of_nat (n mod 256) :: 8 word) = word_of_nat n"
  by (simp add: word_of_nat_eq_iff take_bit_eq_mod)

lemma div_mod_shift: "0 < m \<Longrightarrow> (a mod (256 * m)) div m = (a div m) mod (256::nat)"
  by (simp add: mod_mult2_eq mult.commute)

lemma be_digits_mod: "be_digits k (n mod 256 ^ k) = be_digits k n"
proof (induction k arbitrary: n)
  case 0
  show ?case by simp
next
  case (Suc k)
  have "(word_of_nat ((n mod 256 ^ Suc k) div 256 ^ k) :: 8 word) = word_of_nat (n div 256 ^ k)"
    using div_mod_shift [of "256 ^ k" n] by (simp add: word_of_nat_mod256)
  moreover have "(n mod 256 ^ Suc k) mod 256 ^ k = n mod 256 ^ k"
    by (simp add: mod_mod_cancel)
  ultimately show ?case by simp
qed

lemma be_digits_unfold:
  "be_digits (Suc k) n = word_of_nat (n div 256 ^ k) # be_digits k n"
  by (simp add: be_digits_mod)

lemma PutUint64_be_digits: "PutUint64 v = be_digits 8 (unat v)"
proof -
  have e8: "(8::nat) = Suc (Suc (Suc (Suc (Suc (Suc (Suc (Suc 0)))))))"
    by simp
  have "be_digits (Suc (Suc (Suc (Suc (Suc (Suc (Suc (Suc 0)))))))) (unat v) = PutUint64 v"
    unfolding be_digits_unfold be_digits.simps(1) PutUint64_def byte_drop
    by simp
  then show ?thesis unfolding e8 by simp
qed

lemma PutUint64_mono: "v < w \<Longrightarrow> PutUint64 v @ xs < PutUint64 w @ ys"
proof -
  assume "v < w"
  then have "unat v < unat w" by (simp add: word_less_nat_alt)
  moreover have "unat w < 256 ^ 8" using unsigned_less [of w, where 'a = nat] by simp
  ultimately show ?thesis unfolding PutUint64_be_digits by (rule be_digits_mono)
qed

subsection \<open>The composite key\<close>

lemma length_expireKey [simp]: "length (expireKey t pid) = 8 + length pid"
  by (simp add: expireKey_def)

lemma take8_expireKey [simp]: "take 8 (expireKey t pid) = PutUint64 (toTimestamp t)"
  by (simp add: expireKey_def)

lemma expireKey_eq_iff:
  "expireKey t a = expireKey u b \<longleftrightarrow> toTimestamp t = toTimestamp u \<and> a = b"
  by (simp add: expireKey_def)

lemma append_less_cancel: "xs @ a < xs @ b \<longleftrightarrow> a < (b :: 'a::linorder list)"
  by (induction xs) simp_all

lemma expireKey_less_iff:
  "expireKey t a < expireKey u b \<longleftrightarrow>
     toTimestamp t < toTimestamp u \<or> (toTimestamp t = toTimestamp u \<and> bytes_of a < bytes_of b)"
proof (cases "toTimestamp t < toTimestamp u")
  case True
  then show ?thesis by (simp add: expireKey_def PutUint64_mono)
next
  case False
  show ?thesis
  proof (cases "toTimestamp t = toTimestamp u")
    case True
    then show ?thesis by (simp add: expireKey_def append_less_cancel)
  next
    case ne: False
    with False have "toTimestamp u < toTimestamp t" by simp
    then have "expireKey u b < expireKey t a" by (simp add: expireKey_def PutUint64_mono)
    then have "\<not> expireKey t a < expireKey u b" by simp
    with False ne show ?thesis by simp
  qed
qed

lemma toTimestamp_in_range:
  assumes "timestamp_range t"
  shows "uint (toTimestamp t) = instant t - unixToInternal * 1000000000"
proof -
  have nz: "\<not> IsZero t"
    using assms by (simp add: timestamp_range_def IsZero_def unixToInternal_def)
  define x where "x = instant t - unixToInternal * 1000000000"
  have "0 \<le> x" and "x < 2 ^ 64"
    using assms by (simp_all add: timestamp_range_def x_def)
  then have "uint (word_of_int x :: 64 word) = x"
    by (simp add: uint_word_of_int take_bit_int_eq_self)
  with nz show ?thesis
    unfolding toTimestamp_def UnixNano_def time_UTC_def x_def by simp
qed

lemma toTimestamp_le_iff:
  assumes "timestamp_range t" "timestamp_range u"
  shows "toTimestamp t \<le> toTimestamp u \<longleftrightarrow> instant t \<le> instant u"
  using assms by (simp add: word_le_def toTimestamp_in_range)

lemma toTimestamp_less_iff:
  assumes "timestamp_range t" "timestamp_range u"
  shows "toTimestamp t < toTimestamp u \<longleftrightarrow> instant t < instant u"
  using assms by (simp add: word_less_def toTimestamp_in_range)

section \<open>Save of a nil record\<close>

text \<open>
  C7. In both backends \<open>Save\<close> called with a nil record pointer fails with the
  invalid-argument error (\<^verbatim>\<open>paste is nil\<close>) and does not modify the store, whatever
  the state of the context.
\<close>

theorem Save_nil_rejected:
  "bolt_Save ctx None s = (Some ErrPasteIsNil, None, s) \<and>
   sqlite_Save ctx None t = (Some ErrPasteIsNil, None, t)"
  by (simp add: bolt_Save_def sqlite_Save_def)

section \<open>Strings in JSON text\<close>

lemma json_text_valid: "utf8_from k s \<Longrightarrow> json_text k s = s"
proof (induction s arbitrary: k)
  case Nil
  show ?case by simp
next
  case (Cons c cs)
  show ?case
  proof (cases k)
    case 0
    with Cons.prems obtain n where n: "rune_len c cs = Some n" and v: "utf8_from (n - 1) cs"
      by (auto split: option.splits)
    from Cons.IH [OF v] n 0 show ?thesis by simp
  next
    case (Suc j)
    with Cons.prems have "utf8_from j cs" by simp
    from Cons.IH [OF this] Suc show ?thesis by simp
  qed
qed

lemma json_string_valid [simp]: "ValidString s \<Longrightarrow> json_string s = s"
  by (simp add: ValidString_def json_string_def json_text_valid)

lemma json_strings_fields [simp]:
  "ID (json_strings p) = json_string (ID p)" "Content (json_strings p) = json_string (Content p)"
  "Syntax (json_strings p) = json_string (Syntax p)"
  "PasswordHash (json_strings p) = json_string (PasswordHash p)"
  "Size (json_strings p) = Size p" "CreatedAt (json_strings p) = CreatedAt p"
  "ExpiresAt (json_strings p) = ExpiresAt p"
  by (simp_all add: json_strings_def)

lemma HasExpiration_json_strings [simp]: "HasExpiration (json_strings p) = HasExpiration p"
  by (simp add: HasExpiration_def)



lemma ValidString_samples [simp]:
  "ValidString ''c1''" "ValidString ''ok''" "ValidString ''plaintext''" "ValidString []"
  "ValidString ''dead''" "ValidString ''alive''" "ValidString ''nope''"
  by (simp_all add: ValidString_def rune_len_def)

section \<open>Normalisation of the argument of Save\<close>

lemma normalize_fields [simp]:
  "ID (normalizeUTC p) = ID p" "Content (normalizeUTC p) = Content p" "Syntax (normalizeUTC p) = Syntax p"
  "PasswordHash (normalizeUTC p) = PasswordHash p" "Size (normalizeUTC p) = Size p"
  "CreatedAt (normalizeUTC p) = time_UTC (CreatedAt p)" "ExpiresAt (normalizeUTC p) = time_UTC (ExpiresAt p)"
  by (simp_all add: normalizeUTC_def)

lemma time_UTC_fields [simp]: "instant (time_UTC t) = instant t" "loc (time_UTC t) = UTC"
  by (simp_all add: time_UTC_def)

lemma IsZero_UTC [simp]: "IsZero (time_UTC t) = IsZero t"
  by (simp add: IsZero_def)

lemma HasExpiration_normalize [simp]: "HasExpiration (normalizeUTC p) = HasExpiration p"
  by (simp add: HasExpiration_def)

lemma toTimestamp_UTC [simp]: "toTimestamp (time_UTC t) = toTimestamp t"
  by (simp add: toTimestamp_def time_UTC_def IsZero_def)

lemma expireKey_UTC [simp]: "expireKey (time_UTC t) pid = expireKey t pid"
  by (simp add: expireKey_def)

text \<open>
  C10, as stated, fails: the embedded \<open>Save\<close> looks at the context before it
  normalises, so with a context that is already done it returns and the caller's struct
  still has its time in the zone it came with.
\<close>

theorem Save_argument_counterexample:
  "fst (snd (bolt_Save (Some ErrCanceled) (Some (sample_paste ''c1'' sample_local)) bolt_Open))
     = Some (sample_paste ''c1'' sample_local) \<and>
   loc (CreatedAt (sample_paste ''c1'' sample_local)) \<noteq> UTC"
  by (simp add: bolt_Save_def sample_paste_def sample_local_def)

text \<open>
  C10, amended. \<open>Save\<close> mutates its argument in place: for every non-nil record, the
  relational \<open>Save\<close> always, and the embedded \<open>Save\<close> whenever the context is not
  already done on entry, leaves the caller's struct with \<open>CreatedAt\<close> and
  \<open>ExpiresAt\<close> replaced by the same instants in UTC and every other field unchanged,
  whether or not the write then succeeds; the embedded \<open>Save\<close> called with a done
  context returns the context's error and leaves the struct, and the store, as they
  were.
\<close>

theorem Save_normalizes_argument:
  "fst (snd (bolt_Save None (Some p) s)) = Some (normalizeUTC p) \<and>
   bolt_Save (Some e) (Some p) s = (Some e, Some p, s) \<and>
   fst (snd (sqlite_Save ctx (Some p) t)) = Some (normalizeUTC p) \<and>
   instant (CreatedAt (normalizeUTC p)) = instant (CreatedAt p) \<and> loc (CreatedAt (normalizeUTC p)) = UTC \<and>
   instant (ExpiresAt (normalizeUTC p)) = instant (ExpiresAt p) \<and> loc (ExpiresAt (normalizeUTC p)) = UTC \<and>
   ID (normalizeUTC p) = ID p \<and> Content (normalizeUTC p) = Content p \<and>
   Syntax (normalizeUTC p) = Syntax p \<and> PasswordHash (normalizeUTC p) = PasswordHash p \<and>
   Size (normalizeUTC p) = Size p"
  by (simp add: bolt_Save_def sqlite_Save_def Let_def split: sum.splits prod.splits option.splits)

section \<open>Well-formed buckets\<close>

lemma bucket_ok_Nil [simp]: "bucket_ok []"
  by (simp add: bucket_ok_def)









section \<open>The invariant of the expiry index\<close>






















lemma sweep_closed:
  assumes "\<forall>e\<in>set xs. 8 \<le> length (fst e)"
  shows "sweep c xs pb eb n =
    (None,
     filter (\<lambda>e. fst e \<notin> snd ` set (takeWhile (\<lambda>e. Uint64 (take 8 (fst e)) \<le> c) xs)) pb,
     filter (\<lambda>e. fst e \<notin> fst ` set (takeWhile (\<lambda>e. Uint64 (take 8 (fst e)) \<le> c) xs)) eb,
     n + int (length (takeWhile (\<lambda>e. Uint64 (take 8 (fst e)) \<le> c) xs)))"
  using assms
proof (induction xs arbitrary: pb eb n)
  case Nil
  show ?case by simp
next
  case (Cons x xs)
  obtain key val where x: "x = (key, val)" by (cases x)
  from Cons.prems have len: "\<not> length key < 8" and rest: "\<forall>e\<in>set xs. 8 \<le> length (fst e)"
    by (auto simp: x)
  let ?Q = "\<lambda>e. Uint64 (take 8 (fst e)) \<le> c"
  show ?case
  proof (cases "Uint64 (take 8 key) \<le> c")
    case False
    have "sweep c (x # xs) pb eb n = (None, pb, eb, n)"
      using len False by (simp add: x not_le)
    moreover have "takeWhile ?Q (x # xs) = []"
      using False by (simp add: x)
    ultimately show ?thesis by simp
  next
    case True
    then have ng: "\<not> c < Uint64 (take 8 key)" by simp
    have tw: "takeWhile ?Q (x # xs) = x # takeWhile ?Q xs"
      using True by (simp add: x)
    have "sweep c (x # xs) pb eb n =
        sweep c xs (filter (\<lambda>e. fst e \<noteq> val) pb) (filter (\<lambda>e. fst e \<noteq> key) eb) (n + 1)"
      using len ng by (simp add: x bucket_Delete_def)
    also have "\<dots> = (None,
        filter (\<lambda>e. fst e \<notin> snd ` set (takeWhile ?Q xs)) (filter (\<lambda>e. fst e \<noteq> val) pb),
        filter (\<lambda>e. fst e \<notin> fst ` set (takeWhile ?Q xs)) (filter (\<lambda>e. fst e \<noteq> key) eb),
        n + 1 + int (length (takeWhile ?Q xs)))"
      by (rule Cons.IH [OF rest])
    also have "\<dots> = (None,
        filter (\<lambda>e. fst e \<notin> snd ` set (x # takeWhile ?Q xs)) pb,
        filter (\<lambda>e. fst e \<notin> fst ` set (x # takeWhile ?Q xs)) eb,
        n + int (length (x # takeWhile ?Q xs)))"
      by (simp add: x conj_commute)
    finally show ?thesis unfolding tw .
  qed
qed









section \<open>The cursor loop on a sorted index\<close>

lemma list8:
  "length (b::bytes) = 8 \<Longrightarrow> \<exists>b0 b1 b2 b3 b4 b5 b6 b7. b = [b0, b1, b2, b3, b4, b5, b6, b7]"
  by (auto simp: length_Suc_conv numeral_eq_Suc)

lemma byte_high: "8 \<le> k \<Longrightarrow> bit (w :: 8 word) (k + n) \<longleftrightarrow> False"
  using bit_imp_le_length [of w "k + n"] by auto

lemma PutUint64_Uint64: "length b = 8 \<Longrightarrow> PutUint64 (Uint64 b) = b"
proof -
  assume "length b = 8"
  then obtain b0 b1 b2 b3 b4 b5 b6 b7 where b: "b = [b0, b1, b2, b3, b4, b5, b6, b7]"
    using list8 by blast
  show ?thesis
    unfolding b PutUint64_def Uint64_def
    apply simp
    apply (intro conjI; rule bit_word_eqI; simp add: bit_simps byte_high)
    done
qed

text \<open>The order of two keys never inverts the order of their decoded prefixes.\<close>

lemma key_prefix_mono:
  assumes "8 \<le> length k" "8 \<le> length k'" "k < k'"
  shows "Uint64 (take 8 k) \<le> Uint64 (take 8 k')"
proof (rule ccontr)
  assume "\<not> Uint64 (take 8 k) \<le> Uint64 (take 8 k')"
  then have "Uint64 (take 8 k') < Uint64 (take 8 k)" by simp
  then have "PutUint64 (Uint64 (take 8 k')) @ drop 8 k' < PutUint64 (Uint64 (take 8 k)) @ drop 8 k"
    by (rule PutUint64_mono)
  with assms have "k' < k" by (simp add: PutUint64_Uint64)
  with assms(3) show False by simp
qed

lemma takeWhile_eq_filter:
  "sorted_wrt (\<lambda>a b. P b \<longrightarrow> P a) xs \<Longrightarrow> takeWhile P xs = filter P xs"
proof (induction xs)
  case Nil
  show ?case by simp
next
  case (Cons x xs)
  then have ih: "takeWhile P xs = filter P xs" and all: "\<forall>b\<in>set xs. P b \<longrightarrow> P x" by simp_all
  show ?case
  proof (cases "P x")
    case True
    with ih show ?thesis by simp
  next
    case False
    with all have "filter P xs = []" by (auto simp: filter_empty_conv)
    with False show ?thesis by simp
  qed
qed

lemma index_prefix_sorted:
  assumes ok: "bucket_ok E" and len: "\<forall>e\<in>set E. 8 \<le> length (fst e)"
  shows "sorted_wrt (\<lambda>a b. Uint64 (take 8 (fst b)) \<le> c \<longrightarrow> Uint64 (take 8 (fst a)) \<le> c) E"
proof -
  from ok have "sorted_wrt (\<lambda>a b. fst a < fst b) E"
    by (simp add: bucket_ok_def sorted_wrt_map)
  then show ?thesis
  proof (rule sorted_wrt_mono_rel [rotated])
    fix a b assume "a \<in> set E" "b \<in> set E" "fst a < fst b"
    with len have "Uint64 (take 8 (fst a)) \<le> Uint64 (take 8 (fst b))"
      by (intro key_prefix_mono) auto
    then show "Uint64 (take 8 (fst b)) \<le> c \<longrightarrow> Uint64 (take 8 (fst a)) \<le> c"
      by (auto intro: order_trans)
  qed
qed

text \<open>The entries the loop visits before it stops are all the entries at or below the cutoff.\<close>

lemma sweep_all:
  assumes ok: "bucket_ok E" and len: "\<forall>e\<in>set E. 8 \<le> length (fst e)"
  shows "takeWhile (\<lambda>e. Uint64 (take 8 (fst e)) \<le> c) E = filter (\<lambda>e. Uint64 (take 8 (fst e)) \<le> c) E"
  by (rule takeWhile_eq_filter [OF index_prefix_sorted [OF ok len]])

lemma sweep_sorted:
  assumes ok: "bucket_ok E" and len: "\<forall>e\<in>set E. 8 \<le> length (fst e)"
  shows "sweep c E pb E n =
    (None,
     filter (\<lambda>e. fst e \<notin> snd ` set (filter (\<lambda>e. Uint64 (take 8 (fst e)) \<le> c) E)) pb,
     filter (\<lambda>e. c < Uint64 (take 8 (fst e))) E,
     n + int (length (filter (\<lambda>e. Uint64 (take 8 (fst e)) \<le> c) E)))"
proof -
  have "filter (\<lambda>e. fst e \<notin> fst ` set (filter (\<lambda>e. Uint64 (take 8 (fst e)) \<le> c) E)) E
      = filter (\<lambda>e. c < Uint64 (take 8 (fst e))) E"
    by (rule filter_cong) (auto simp: not_le [symmetric])
  then show ?thesis
    by (simp add: sweep_closed [OF len] sweep_all [OF ok len])
qed

section \<open>The index after a sequence of operations\<close>

subsection \<open>The sample values\<close>

lemma sample_paste_fields [simp]:
  "ID (sample_paste pid e) = pid" "ExpiresAt (sample_paste pid e) = e"
  "CreatedAt (sample_paste pid e) = sample_local" "Content (sample_paste pid e) = ''ok''"
  "Syntax (sample_paste pid e) = ''plaintext''" "PasswordHash (sample_paste pid e) = []"
  "Size (sample_paste pid e) = 2"
  by (simp_all add: sample_paste_def)

lemma instant_sample_later [simp]:
  "instant (sample_later h) = 63835596800000000000 + h * 3600000000000"
  by (simp add: sample_later_def time_Add_def sample_now_def time_Unix_def unixToInternal_def
      Hour_def Minute_def Second_def)

lemma instant_zero_time [simp]: "instant zero_time = 0" "loc zero_time = UTC"
  by (simp_all add: zero_time_def)

lemma IsZero_zero_time [simp]: "IsZero zero_time"
  by (simp add: IsZero_def)

lemma IsZero_sample_later [simp]: "0 \<le> h \<Longrightarrow> \<not> IsZero (sample_later h)"
  by (simp add: IsZero_def)

lemma HasExpiration_sample [simp]: "HasExpiration (sample_paste pid e) \<longleftrightarrow> \<not> IsZero e"
  by (simp add: HasExpiration_def)

lemma sample_years [simp]:
  "year_in_range (time_UTC sample_local)"
  "year_in_range (time_UTC zero_time)"
  "0 \<le> h \<Longrightarrow> h \<le> 1000 \<Longrightarrow> year_in_range (time_UTC (sample_later h))"
  by (simp_all add: year_in_range_def zone_offset_def sample_local_def sample_now_def
      time_Unix_def unixToInternal_def)

lemma sample_later_range [simp]: "0 \<le> h \<Longrightarrow> h \<le> 1000 \<Longrightarrow> timestamp_range (sample_later h)"
  by (simp add: timestamp_range_def unixToInternal_def)

lemma toTimestamp_sample_later [simp]:
  "0 \<le> h \<Longrightarrow> h \<le> 1000 \<Longrightarrow> 0 \<le> k \<Longrightarrow> k \<le> 1000
    \<Longrightarrow> toTimestamp (sample_later h) \<le> toTimestamp (sample_later k) \<longleftrightarrow> h \<le> k"
  by (simp add: toTimestamp_le_iff)

lemma toTimestamp_sample_later_less [simp]:
  "0 \<le> h \<Longrightarrow> h \<le> 1000 \<Longrightarrow> 0 \<le> k \<Longrightarrow> k \<le> 1000
    \<Longrightarrow> toTimestamp (sample_later h) < toTimestamp (sample_later k) \<longleftrightarrow> h < k"
  by (simp add: toTimestamp_less_iff)

subsection \<open>Save and the index\<close>

lemma bucket_Get_insert [simp]: "bucket_Get k (bucket_insert k v b) = Some v"
  by (induction b) (auto simp: bucket_Get_def)


subsection \<open>A run: save with an expiry, then save again without\<close>









section \<open>The order of the index keys\<close>

text \<open>
  C3, as stated, fails: the timestamp is the 64-bit two's complement count of
  nanoseconds since 1970 read as unsigned, so an instant before 1970 gets a larger
  timestamp than any instant from 1970 on. One second before the epoch is earlier than
  one second after it, and its key is the greater.
\<close>

theorem expireKey_inverted_counterexample:
  "Before (time_Unix (- 1) 0) (time_Unix 1 0) \<and>
   expireKey (time_Unix 1 0) ''a'' < expireKey (time_Unix (- 1) 0) ''a''"
  by (simp add: expireKey_less_iff toTimestamp_def IsZero_def Before_def time_Unix_def
      unixToInternal_def UnixNano_def word_less_def)

text \<open>
  C3, amended. For timestamps from 1970-01-01T00:00:00Z up to the last instant a signed
  64-bit count of nanoseconds since then can hold, the composite key orders as the
  pair (timestamp, id bytes): an earlier timestamp gives the smaller key whatever the
  ids, and equal timestamps are ordered by the id bytes. For all timestamps the key
  orders as the pair (64-bit timestamp, id bytes), and two keys are equal only for
  equal 64-bit timestamps and equal ids. So in a sorted index whose keys have their
  eight-byte prefix, the loop that stops at the first prefix above the cutoff has
  visited every entry whose prefix is at or below the cutoff: it deletes those entries
  and the records they name, and counts them all.
\<close>

theorem expireKey_order:
  "(timestamp_range t1 \<and> timestamp_range t2 \<longrightarrow>
      (expireKey t1 id1 < expireKey t2 id2 \<longleftrightarrow>
         Before t1 t2 \<or> (instant t1 = instant t2 \<and> bytes_of id1 < bytes_of id2))) \<and>
   (expireKey t1 id1 < expireKey t2 id2 \<longleftrightarrow>
      toTimestamp t1 < toTimestamp t2 \<or>
      (toTimestamp t1 = toTimestamp t2 \<and> bytes_of id1 < bytes_of id2)) \<and>
   (expireKey t1 id1 = expireKey t2 id2 \<longleftrightarrow> toTimestamp t1 = toTimestamp t2 \<and> id1 = id2) \<and>
   (bucket_ok E \<and> (\<forall>e\<in>set E. 8 \<le> length (fst e)) \<longrightarrow>
      sweep c E pb E 0 =
        (None,
         filter (\<lambda>e. fst e \<notin> snd ` set (filter (\<lambda>e. Uint64 (take 8 (fst e)) \<le> c) E)) pb,
         filter (\<lambda>e. c < Uint64 (take 8 (fst e))) E,
         int (length (filter (\<lambda>e. Uint64 (take 8 (fst e)) \<le> c) E))))"
proof (intro conjI impI)
  assume r: "timestamp_range t1 \<and> timestamp_range t2"
  then have "toTimestamp t1 = toTimestamp t2 \<longleftrightarrow> instant t1 = instant t2"
    using toTimestamp_le_iff [of t1 t2] toTimestamp_le_iff [of t2 t1] by auto
  with r show "expireKey t1 id1 < expireKey t2 id2 \<longleftrightarrow>
      Before t1 t2 \<or> (instant t1 = instant t2 \<and> bytes_of id1 < bytes_of id2)"
    by (simp add: expireKey_less_iff toTimestamp_less_iff Before_def)
next
  show "expireKey t1 id1 < expireKey t2 id2 \<longleftrightarrow>
      toTimestamp t1 < toTimestamp t2 \<or>
      (toTimestamp t1 = toTimestamp t2 \<and> bytes_of id1 < bytes_of id2)"
    by (rule expireKey_less_iff)
next
  show "expireKey t1 id1 = expireKey t2 id2 \<longleftrightarrow> toTimestamp t1 = toTimestamp t2 \<and> id1 = id2"
    by (rule expireKey_eq_iff)
next
  assume "bucket_ok E \<and> (\<forall>e\<in>set E. 8 \<le> length (fst e))"
  then show "sweep c E pb E 0 =
        (None,
         filter (\<lambda>e. fst e \<notin> snd ` set (filter (\<lambda>e. Uint64 (take 8 (fst e)) \<le> c) E)) pb,
         filter (\<lambda>e. c < Uint64 (take 8 (fst e))) E,
         int (length (filter (\<lambda>e. Uint64 (take 8 (fst e)) \<le> c) E)))"
    using sweep_sorted [of E c pb 0] by simp
qed

theorem expireKey_order_witness:
  "timestamp_range (sample_later 1) \<and> timestamp_range (sample_later 2) \<and>
   Before (sample_later 1) (sample_later 2) \<and>
   expireKey (sample_later 1) ''b'' < expireKey (sample_later 2) ''a'' \<and>
   bucket_ok [(expireKey (sample_later 1) ''b'', bytes_of ''b''),
              (expireKey (sample_later 2) ''a'', bytes_of ''a'')] \<and>
   sweep (toTimestamp (sample_later 1))
      [(expireKey (sample_later 1) ''b'', bytes_of ''b''),
       (expireKey (sample_later 2) ''a'', bytes_of ''a'')]
      [(bytes_of ''a'', JSON (sample_paste ''a'' (sample_later 2))),
       (bytes_of ''b'', JSON (sample_paste ''b'' (sample_later 1)))]
      [(expireKey (sample_later 1) ''b'', bytes_of ''b''),
       (expireKey (sample_later 2) ''a'', bytes_of ''a'')] 0
     = (None, [(bytes_of ''a'', JSON (sample_paste ''a'' (sample_later 2)))],
        [(expireKey (sample_later 2) ''a'', bytes_of ''a'')], 1)"
  using expireKey_order [of "sample_later 1" "sample_later 2" "''b''" "''a''"
      "[(expireKey (sample_later 1) ''b'', bytes_of ''b''),
        (expireKey (sample_later 2) ''a'', bytes_of ''a'')]"
      "toTimestamp (sample_later 1)"
      "[(bytes_of ''a'', JSON (sample_paste ''a'' (sample_later 2))),
        (bytes_of ''b'', JSON (sample_paste ''b'' (sample_later 1)))]"]
  by (simp add: Before_def bucket_ok_def)

section \<open>Round trip\<close>






section \<open>A second sweep\<close>



lemma row_expired_UTC [simp]: "row_expired (time_UTC t) x = row_expired t x"
  by (simp add: row_expired_def After_def split: option.splits)







section \<open>What a sweep removes\<close>





lemma timestamp_range_UTC [simp]: "timestamp_range (time_UTC t) = timestamp_range t"
  by (simp add: timestamp_range_def)


subsection \<open>A run: one paste that expires and one that does not\<close>






section \<open>Delete of a missing id\<close>

lemma filter_absent: "find (\<lambda>x. f x = k) t = None \<Longrightarrow> filter (\<lambda>x. f x \<noteq> k) t = t"
  by (induction t) (auto split: if_splits)

text \<open>
  C6. For every store state and every id for which no record exists (\<open>Get\<close> fails with
  \<open>ErrNotFound\<close>), \<open>Delete\<close> of that id under a live context fails with
  \<open>ErrNotFound\<close> and leaves the whole state unchanged, primary table and index alike;
  under any context at all the state is unchanged. Both backends.
\<close>

theorem Delete_missing_unchanged:
  "(bolt_Get None pid s = Inl ErrNotFound \<longrightarrow>
      bolt_Delete None pid s = (Some ErrNotFound, s) \<and> snd (bolt_Delete ctx pid s) = s) \<and>
   (sqlite_Get None pid t = Inl ErrNotFound \<longrightarrow>
      sqlite_Delete None pid t = (Some ErrNotFound, t) \<and> snd (sqlite_Delete ctx pid t) = t)"
proof (intro conjI impI)
  assume g: "bolt_Get None pid s = Inl ErrNotFound"
  then have n: "bucket_Get (bytes_of pid) (pastes s) = None"
    by (auto simp: bolt_Get_def split: option.splits sum.splits json_doc.splits)
  then show "bolt_Delete None pid s = (Some ErrNotFound, s)"
    by (simp add: bolt_Delete_def db_Update_def Delete_tx_def)
  then show "snd (bolt_Delete ctx pid s) = s"
    by (cases ctx) (simp_all add: bolt_Delete_def)
next
  assume g: "sqlite_Get None pid t = Inl ErrNotFound"
  then have n: "find (\<lambda>x. col_id x = pid) t = None"
    by (auto simp: sqlite_Get_def split: option.splits)
  then show "sqlite_Delete None pid t = (Some ErrNotFound, t)"
    by (simp add: sqlite_Delete_def filter_absent)
  then show "snd (sqlite_Delete ctx pid t) = t"
    by (cases ctx) (simp_all add: sqlite_Delete_def)
qed

theorem Delete_missing_unchanged_witness:
  "bolt_Get None ''nope'' bolt_Open = Inl ErrNotFound \<and>
   bolt_Delete None ''nope'' bolt_Open = (Some ErrNotFound, bolt_Open) \<and>
   sqlite_Get None ''nope'' [row_of (sample_paste ''c1'' sample_now)] = Inl ErrNotFound \<and>
   sqlite_Delete None ''nope'' [row_of (sample_paste ''c1'' sample_now)]
     = (Some ErrNotFound, [row_of (sample_paste ''c1'' sample_now)])"
proof -
  have a: "bolt_Get None ''nope'' bolt_Open = Inl ErrNotFound"
    by (simp add: bolt_Get_def bolt_Open_def bucket_Get_def)
  have b: "sqlite_Get None ''nope'' [row_of (sample_paste ''c1'' sample_now)] = Inl ErrNotFound"
    by (simp add: sqlite_Get_def row_of_def sample_paste_def)
  show ?thesis
    using a b Delete_missing_unchanged
      [of "''nope''" bolt_Open None "[row_of (sample_paste ''c1'' sample_now)]"]
    by simp
qed

section \<open>The janitor\<close>

lemma cleanOnce_returns:
  assumes "D (WithTimeout ctx cleanOnce_timeout) now st = Returns (removed, err, st')"
  shows "cleanOnce D ctx now st lg =
     Returns (st', case lg of
                     None \<Rightarrow> None
                   | Some out \<Rightarrow>
                       Some (out @ (case err of
                                      Some e \<Rightarrow> [LogError ''janitor error'' e]
                                    | None \<Rightarrow>
                                        if removed > 0
                                        then [LogInfo ''janitor removed expired pastes'' removed]
                                        else [])))"
  using assms
  by (cases lg; cases err) (simp_all add: cleanOnce_def logger_Error_def logger_Info_def)

lemma cleanOnce_panics:
  assumes "D (WithTimeout ctx cleanOnce_timeout) now st = Panics x"
  shows "cleanOnce D ctx now st lg = Panics x"
  using assms by (simp add: cleanOnce_def)

lemma janitor_failing_store:
  "janitor_loop (\<lambda>c now st. Returns (0, Some e, st)) evs st lg
     = Returns (st, map_option (\<lambda>out. out @ map (\<lambda>x. LogError ''janitor error'' e) (served evs)) lg)"
proof (induction evs arbitrary: lg)
  case Nil
  show ?case by (cases lg) simp_all
next
  case (Cons ev evs)
  show ?case
  proof (cases ev)
    case (Tick ctx now)
    have "cleanOnce (\<lambda>c now st. Returns (0, Some e, st)) ctx now st lg =
        Returns (st, map_option (\<lambda>out. out @ [LogError ''janitor error'' e]) lg)"
      by (cases lg) (simp_all add: cleanOnce_returns)
    then show ?thesis
      by (cases lg) (simp_all add: Tick Cons.IH)
  next
    case CtxDone
    then show ?thesis by (cases lg) simp_all
  qed
qed

text \<open>
  C8, as stated, fails for a store whose \<open>DeleteExpired\<close> panics: \<open>cleanOnce\<close>
  recovers nothing, so the panic leaves the tick. The embedded store has such a place,
  the slice expression of its cursor loop, which a well-formed index never reaches.
\<close>

theorem cleanOnce_counterexample:
  "cleanOnce (\<lambda>c now st. Panics PanicNilPointer) None sample_now (0::nat) (Some [])
     = Panics PanicNilPointer \<and>
   cleanOnce bolt_store None sample_now \<lparr>pastes = [], expires = [([1], [2])]\<rparr> (Some [])
     = Panics PanicSliceBounds"
  by (simp add: cleanOnce_def bolt_store_def bolt_DeleteExpired_def WithTimeout_def
      cleanOnce_timeout_def Second_def)

text \<open>
  C8, amended. For every store whose \<open>DeleteExpired\<close> call returns, with a count or
  with an error, and for every logger, nil or not, a janitor tick returns normally and
  hands no error on: when \<open>DeleteExpired\<close> fails, the error is written to the logger
  if there is one and to nothing otherwise; when it succeeds, a record is written only
  for a count above zero and only to a logger that exists; the nil logger is never
  called. A panic of the store's \<open>DeleteExpired\<close> is not recovered by the tick. The
  loop goes on after a failed sweep: over a store whose every sweep fails it serves
  every tick up to the cancellation, logging one error for each.
\<close>

theorem cleanOnce_swallows_errors:
  "(D (WithTimeout ctx cleanOnce_timeout) now st = Returns (removed, err, st') \<longrightarrow>
      cleanOnce D ctx now st lg =
        Returns (st', case lg of
                        None \<Rightarrow> None
                      | Some out \<Rightarrow>
                          Some (out @ (case err of
                                         Some e \<Rightarrow> [LogError ''janitor error'' e]
                                       | None \<Rightarrow>
                                           if removed > 0
                                           then [LogInfo ''janitor removed expired pastes'' removed]
                                           else [])))) \<and>
   (D (WithTimeout ctx cleanOnce_timeout) now st = Panics x \<longrightarrow>
      cleanOnce D ctx now st lg = Panics x) \<and>
   janitor_loop (\<lambda>c now st. Returns (0, Some e, st)) evs st lg
     = Returns (st, map_option (\<lambda>out. out @ map (\<lambda>x. LogError ''janitor error'' e) (served evs)) lg)"
  using cleanOnce_returns [of D ctx now st removed err st' lg]
    cleanOnce_panics [of D ctx now st x lg] janitor_failing_store [of e evs st lg]
  by blast

theorem cleanOnce_swallows_errors_witness:
  "cleanOnce (\<lambda>c now st. Returns (0, Some ErrDeadlineExceeded, st)) None sample_now (7::nat) None
     = Returns (7, None) \<and>
   cleanOnce (\<lambda>c now st. Returns (0, Some ErrDeadlineExceeded, st)) None sample_now (7::nat) (Some [])
     = Returns (7, Some [LogError ''janitor error'' ErrDeadlineExceeded]) \<and>
   cleanOnce (\<lambda>c now st. Returns (3, None, st)) None sample_now (7::nat) None
     = Returns (7, None) \<and>
   cleanOnce (\<lambda>c now st. Returns (3, None, st)) None sample_now (7::nat) (Some [])
     = Returns (7, Some [LogInfo ''janitor removed expired pastes'' 3]) \<and>
   cleanOnce (\<lambda>c now st. Returns (0, None, st)) None sample_now (7::nat) (Some [])
     = Returns (7, Some []) \<and>
   cleanOnce (\<lambda>c now st. Panics PanicSliceBounds) None sample_now (7::nat) None
     = Panics PanicSliceBounds"
proof -
  have a: "(\<lambda>c now st. Returns (0, Some ErrDeadlineExceeded, st))
      (WithTimeout None cleanOnce_timeout) sample_now (7::nat)
      = Returns (0, Some ErrDeadlineExceeded, 7)"
    by simp
  note th = cleanOnce_swallows_errors
    [of "\<lambda>c now st. Returns (0, Some ErrDeadlineExceeded, st)" None sample_now "7::nat"
        0 "Some ErrDeadlineExceeded" 7, THEN conjunct1, THEN mp, OF a]
  have b: "(\<lambda>c now st. Returns (3, None, st))
      (WithTimeout None cleanOnce_timeout) sample_now (7::nat) = Returns (3, None, 7)"
    by simp
  note th3 = cleanOnce_swallows_errors
    [of "\<lambda>c now st. Returns (3, None, st)" None sample_now "7::nat" 3 None 7,
        THEN conjunct1, THEN mp, OF b]
  have c: "(\<lambda>c now st. Returns (0, None, st))
      (WithTimeout None cleanOnce_timeout) sample_now (7::nat) = Returns (0, None, 7)"
    by simp
  note th0 = cleanOnce_swallows_errors
    [of "\<lambda>c now st. Returns (0, None, st)" None sample_now "7::nat" 0 None 7,
        THEN conjunct1, THEN mp, OF c]
  have d: "(\<lambda>c now st. Panics PanicSliceBounds)
      (WithTimeout None cleanOnce_timeout) sample_now (7::nat) = Panics PanicSliceBounds"
    by simp
  note thp = cleanOnce_swallows_errors
    [where D = "\<lambda>c now st. Panics PanicSliceBounds" and ctx = None and now = sample_now
       and st = "7::nat" and x = PanicSliceBounds and lg = None,
       THEN conjunct2, THEN conjunct1, THEN mp, OF d]
  from th [of None] th [of "Some []"] th3 [of None] th3 [of "Some []"] th0 [of "Some []"] thp
  show ?thesis by simp
qed

section \<open>The timeout of a sweep and the tick interval\<close>

text \<open>
  C9, as stated, fails: the timeout is a fixed five seconds whatever the interval, and
  an interval of one second is kept as it is.
\<close>

theorem janitor_timeout_counterexample:
  "\<not> cleanOnce_timeout < ticker_interval (1 * Second)"
  by (simp add: cleanOnce_timeout_def ticker_interval_def Second_def)

text \<open>
  C9, amended. The timeout of each \<open>DeleteExpired\<close> call is five seconds, independent
  of the interval argument; it is strictly shorter than the effective tick interval
  exactly when the interval argument is not positive (the interval becomes one minute)
  or is longer than five seconds.
\<close>

theorem janitor_timeout_shorter_iff:
  "cleanOnce_timeout < ticker_interval interval \<longleftrightarrow> interval \<le> 0 \<or> 5 * Second < interval"
  by (simp add: cleanOnce_timeout_def ticker_interval_def Second_def Minute_def)

end
